theory Spec2Isabelle
  imports Complex_Main "HOL-Library.AList"
begin

section \<open>Python strings and numbers\<close>

text \<open>
  A Python \<open>str\<close> is a sequence of code points. An input string is a \<open>string\<close> whose
  characters stand for the code points 0 to 255 (\<open>of_char\<close> gives the code point), and
  the methods of \<open>str\<close> the program calls are written out for exactly these code points.
  \<open>str.upper\<close> leaves that range for two of them (U+00B5 becomes U+039C, U+00FF becomes
  U+0178) and lengthens one (U+00DF becomes \<open>SS\<close>), so an uppercased string is a list of
  code points.
\<close>

type_synonym codepoints = "nat list"

definition isspace :: "char \<Rightarrow> bool" where
  "isspace c = (let n = (of_char c :: nat) in
     (9 \<le> n \<and> n \<le> 13) \<or> (28 \<le> n \<and> n \<le> 32) \<or> n = 133 \<or> n = 160)"

definition isalpha_cp :: "nat \<Rightarrow> bool" where
  "isalpha_cp n = ((65 \<le> n \<and> n \<le> 90) \<or> (97 \<le> n \<and> n \<le> 122) \<or> n = 170 \<or> n = 181 \<or> n = 186
     \<or> (192 \<le> n \<and> n \<le> 214) \<or> (216 \<le> n \<and> n \<le> 246) \<or> (248 \<le> n \<and> n \<le> 255)
     \<or> n = 376 \<or> n = 924)"

definition isalpha :: "char \<Rightarrow> bool" where
  "isalpha c = isalpha_cp (of_char c)"

text \<open>
  \<open>str.isdigit\<close> holds for the decimal digits and for the superscript digits U+00B2,
  U+00B3 and U+00B9; on a string it asks for at least one character.
\<close>

definition isdigit_cp :: "nat \<Rightarrow> bool" where
  "isdigit_cp n = ((48 \<le> n \<and> n \<le> 57) \<or> n = 178 \<or> n = 179 \<or> n = 185)"

definition isdigit :: "codepoints \<Rightarrow> bool" where
  "isdigit s = (s \<noteq> [] \<and> list_all isdigit_cp s)"

definition upper_cp :: "nat \<Rightarrow> codepoints" where
  "upper_cp n =
     (if (97 \<le> n \<and> n \<le> 122) \<or> (224 \<le> n \<and> n \<le> 246) \<or> (248 \<le> n \<and> n \<le> 254) then [n - 32]
      else if n = 181 then [924]
      else if n = 223 then [83, 83]
      else if n = 255 then [376]
      else [n])"

definition upper :: "string \<Rightarrow> codepoints" where
  "upper s = concat (map (\<lambda>c. upper_cp (of_char c)) s)"

definition cp :: "string \<Rightarrow> codepoints" where
  \<comment> \<open>the code points of a string, used for the literals an uppercased string is compared with\<close>
  "cp s = map of_char s"

definition strip :: "string \<Rightarrow> string" where
  "strip s = rev (dropWhile isspace (rev (dropWhile isspace s)))"

datatype error = ValueError

text \<open>
  \<open>int\<close> of a one-character string: the value of a decimal digit, and ValueError for
  every other code point of the range above, the superscript digits included.
\<close>

definition py_int :: "nat \<Rightarrow> error + int" where
  "py_int c = (if 48 \<le> c \<and> c \<le> 57 then Inr (int c - 48) else Inl ValueError)"

text \<open>
  A Python \<open>float\<close> is a finite number, an infinity or a NaN. The finite values are kept
  as reals; the program only negates and compares the floats it parses, which is exact.
  The Maidenhead arithmetic is done in the reals as well: there the model leaves out the
  rounding of the products with \<open>2 / 24\<close> and \<open>1 / 240\<close>.
\<close>

datatype pyfloat = Finite real | PosInf | NegInf | NaN

fun float_neg :: "pyfloat \<Rightarrow> pyfloat" where
  "float_neg (Finite x) = Finite (- x)"
| "float_neg PosInf = NegInf"
| "float_neg NegInf = PosInf"
| "float_neg NaN = NaN"

fun float_le :: "pyfloat \<Rightarrow> pyfloat \<Rightarrow> bool" where
  "float_le NaN b = False"
| "float_le a NaN = False"
| "float_le NegInf b = True"
| "float_le a PosInf = True"
| "float_le (Finite x) (Finite y) = (x \<le> y)"
| "float_le PosInf b = False"
| "float_le a NegInf = False"

section \<open>maidenhead.py\<close>

text \<open>
  \<open>maidenhead_to_latlon\<close> returns a pair, returns None, or raises: the result is
  \<open>Inr (Some (lat, lon))\<close>, \<open>Inr None\<close> or \<open>Inl ValueError\<close>. The running values are
  kept as the pair \<open>(lon, lat)\<close>. Each definition below is one block of the function.
\<close>

type_synonym 'a result = "error + 'a option"

definition field_pair :: "codepoints \<Rightarrow> real \<times> real" where
  \<comment> \<open>\<open>ord\<close> of a character never raises, so the \<open>try\<close> around these two lines catches nothing\<close>
  "field_pair g =
     (real_of_int ((int (g ! 0) - 65) * 20 - 180), real_of_int ((int (g ! 1) - 65) * 10 - 90))"

definition square_pair :: "codepoints \<Rightarrow> real \<times> real \<Rightarrow> (real \<times> real) result" where
  "square_pair g p = (case p of (lon, lat) \<Rightarrow>
     if length g \<ge> 4 \<and> isdigit (take 2 (drop 2 g)) then
       (case py_int (g ! 2) of Inl e \<Rightarrow> Inl e | Inr d2 \<Rightarrow>
        (case py_int (g ! 3) of Inl e \<Rightarrow> Inl e | Inr d3 \<Rightarrow>
           Inr (Some (lon + real_of_int (d2 * 2), lat + real_of_int (d3 * 1)))))
     else if length g \<ge> 3 then Inr None
     else Inr (Some (lon, lat)))"

definition subsquare_pair :: "codepoints \<Rightarrow> real \<times> real \<Rightarrow> (real \<times> real) result" where
  "subsquare_pair g p = (case p of (lon, lat) \<Rightarrow>
     if length g \<ge> 6 \<and> isalpha_cp (g ! 4) \<and> isalpha_cp (g ! 5) then
       Inr (Some (lon + real_of_int (int (g ! 4) - 65) * (2 / 24),
                  lat + real_of_int (int (g ! 5) - 65) * (1 / 24)))
     else if length g = 5 then Inr None
     else Inr (Some (lon, lat)))"

definition extended_pair :: "codepoints \<Rightarrow> real \<times> real \<Rightarrow> (real \<times> real) result" where
  "extended_pair g p = (case p of (lon, lat) \<Rightarrow>
     if length g \<ge> 8 \<and> isdigit (take 2 (drop 6 g)) then
       (case py_int (g ! 6) of Inl e \<Rightarrow> Inl e | Inr d6 \<Rightarrow>
        (case py_int (g ! 7) of Inl e \<Rightarrow> Inl e | Inr d7 \<Rightarrow>
           Inr (Some (lon + real_of_int d6 * (2 / 240), lat + real_of_int d7 * (1 / 240)))))
     else if length g = 7 then Inr None
     else Inr (Some (lon, lat)))"

definition cell_size :: "codepoints \<Rightarrow> real \<times> real" where
  \<comment> \<open>\<open>(cell_lon, cell_lat)\<close>: each later test overwrites the earlier assignment\<close>
  "cell_size g =
     (if length g \<ge> 8 then (2 / 240, 1 / 240)
      else if length g \<ge> 6 then (2 / 24, 1 / 24)
      else if length g \<ge> 4 then (2, 1)
      else (20, 10))"

definition and_then :: "'a result \<Rightarrow> ('a \<Rightarrow> 'b result) \<Rightarrow> 'b result" where
  \<comment> \<open>sequencing: a raise or a \<open>return None\<close> ends the function\<close>
  "and_then r f = (case r of Inl e \<Rightarrow> Inl e | Inr None \<Rightarrow> Inr None | Inr (Some x) \<Rightarrow> f x)"

definition maidenhead_to_latlon :: "string \<Rightarrow> (pyfloat \<times> pyfloat) result" where
  "maidenhead_to_latlon grid =
     (if grid = [] then Inr None
      else let g = upper (strip grid) in
        if length g < 2 then Inr None
        else
          and_then (square_pair g (field_pair g)) (\<lambda>p2.
          and_then (subsquare_pair g p2) (\<lambda>p3.
          and_then (extended_pair g p3) (\<lambda>p4.
            (case p4 of (lon, lat) \<Rightarrow> (case cell_size g of (cell_lon, cell_lat) \<Rightarrow>
               Inr (Some (Finite (lat + cell_lat / 2), Finite (lon + cell_lon / 2)))))))))"

definition near :: "real \<Rightarrow> (pyfloat \<times> pyfloat) result \<Rightarrow> real \<times> real \<Rightarrow> bool" where
  \<comment> \<open>the result is a coordinate whose two components are within \<open>tol\<close> of the given pair\<close>
  "near tol r p =
     (case r of
        Inr (Some (Finite lat, Finite lon)) \<Rightarrow> \<bar>lat - fst p\<bar> \<le> tol \<and> \<bar>lon - snd p\<bar> \<le> tol
      | _ \<Rightarrow> False)"

section \<open>Coordinate resolution in \<open>map_builder.py\<close>\<close>

text \<open>
  \<open>float\<close> is Python's own parser of a string into a float, None standing for its
  ValueError. The functions below take it as the parameter \<open>flt\<close>, and every theorem
  about them holds for any such parser. \<open>float_dec\<close> is the decimal fragment of it
  (surrounding whitespace, a sign, digits with an optional fraction part), with the value
  taken exactly; exponents, underscores and the spellings of infinity and NaN, which
  \<open>float\<close> also reads, are left out. It is there to run the functions on examples.
\<close>

type_synonym float_parser = "string \<Rightarrow> pyfloat option"

definition is_dec :: "char \<Rightarrow> bool" where
  "is_dec c = (48 \<le> (of_char c :: nat) \<and> (of_char c :: nat) \<le> 57)"

definition digits_value :: "string \<Rightarrow> nat" where
  "digits_value ds = foldl (\<lambda>a c. 10 * a + (of_char c - 48)) 0 ds"

definition float_dec :: float_parser where
  "float_dec text =
     (let s = strip text;
          signed = (s \<noteq> [] \<and> (hd s = CHR ''-'' \<or> hd s = CHR ''+''));
          body = (if signed then tl s else s);
          ip = takeWhile is_dec body;
          rest = dropWhile is_dec body
      in case (case rest of [] \<Rightarrow> Some []
               | c # t \<Rightarrow> if c = CHR ''.'' \<and> list_all is_dec t then Some t else None) of
           None \<Rightarrow> None
         | Some fp \<Rightarrow>
             if ip = [] \<and> fp = [] then None
             else let m = real (digits_value ip) + real (digits_value fp) / 10 ^ length fp
                  in Some (Finite (if signed \<and> hd s = CHR ''-'' then - m else m)))"

text \<open>
  \<open>_parse_coord\<close>. Its first test, \<open>text is None\<close>, is for a value the callers never pass:
  \<open>best_latlon\<close> calls it on non-empty strings only. The suffix is the uppercased last
  character when that is a letter, and the empty string otherwise.
\<close>

definition parse_coord :: "float_parser \<Rightarrow> string \<Rightarrow> bool \<Rightarrow> pyfloat option" where
  "parse_coord flt text is_lat =
     (let s = strip text in
      if s = [] then None
      else
        let suffix = (if isalpha (last s) then upper [last s] else []);
            val_str = (if suffix \<noteq> [] then butlast s else s)
        in case flt val_str of
             None \<Rightarrow> None
           | Some val0 \<Rightarrow>
               (case (if suffix \<noteq> [] then
                        (if suffix = cp ''N'' \<or> suffix = cp ''E'' then Some val0
                         else if suffix = cp ''S'' \<or> suffix = cp ''W'' then Some (float_neg val0)
                         else None)
                      else Some val0) of
                  None \<Rightarrow> None
                | Some val \<Rightarrow>
                    if is_lat \<and> \<not> (float_le (Finite (- 90)) val \<and> float_le val (Finite 90)) then None
                    else if \<not> is_lat \<and> \<not> (float_le (Finite (- 180)) val \<and> float_le val (Finite 180))
                      then None
                    else Some val))"

definition parse_latlon :: "float_parser \<Rightarrow> string \<Rightarrow> string \<Rightarrow> (pyfloat \<times> pyfloat) option" where
  "parse_latlon flt lat_str lon_str =
     (case (parse_coord flt lat_str True, parse_coord flt lon_str False) of
        (Some lat, Some lon) \<Rightarrow> Some (lat, lon)
      | _ \<Rightarrow> None)"

text \<open>
  A record is a dict from field names to values: an association list, read with
  \<open>map_of\<close>. A value of \<open>entry.get\<close> is true in a test when it is a non-empty string, and
  \<open>a or b\<close> is \<open>a\<close> when \<open>a\<close> is true and \<open>b\<close> otherwise.
\<close>

type_synonym entry = "(string \<times> string) list"

definition truthy :: "string option \<Rightarrow> bool" where
  "truthy v = (case v of None \<Rightarrow> False | Some s \<Rightarrow> s \<noteq> [])"

definition py_or :: "string option \<Rightarrow> string option \<Rightarrow> string option" where
  "py_or a b = (if truthy a then a else b)"

definition best_latlon :: "float_parser \<Rightarrow> entry \<Rightarrow> (pyfloat \<times> pyfloat \<times> string) result" where
  "best_latlon flt entry =
     (case (case (map_of entry ''LAT'', map_of entry ''LON'') of
              (Some lat, Some lon) \<Rightarrow>
                if lat \<noteq> [] \<and> lon \<noteq> [] then
                  (case parse_latlon flt lat lon of
                     Some pair \<Rightarrow> Some (fst pair, snd pair, ''LATLON'')
                   | None \<Rightarrow> None)
                else None
            | _ \<Rightarrow> None) of
        Some direct \<Rightarrow> Inr (Some direct)
      | None \<Rightarrow>
          (case py_or (map_of entry ''GRIDSQUARE'') (map_of entry ''MY_GRIDSQUARE'') of
             None \<Rightarrow> Inr None
           | Some grid \<Rightarrow>
               if grid = [] then Inr None
               else
                 (case maidenhead_to_latlon grid of
                    Inl e \<Rightarrow> Inl e
                  | Inr None \<Rightarrow> Inr None
                  | Inr (Some pair2) \<Rightarrow> Inr (Some (fst pair2, snd pair2, ''GRID'')))))"

text \<open>
  The first loop of \<open>build_map\<close>, which fills \<open>points\<close> and counts \<open>skipped\<close>. An exception
  raised by \<open>best_latlon\<close> is not caught, so it ends the loop and \<open>build_map\<close>.
\<close>

type_synonym point = "pyfloat \<times> pyfloat \<times> entry"

fun build_map_loop ::
  "float_parser \<Rightarrow> entry list \<Rightarrow> point list \<Rightarrow> nat \<Rightarrow> error + (point list \<times> nat)" where
  "build_map_loop flt [] points skipped = Inr (points, skipped)"
| "build_map_loop flt (r # records) points skipped =
     (case best_latlon flt r of
        Inl e \<Rightarrow> Inl e
      | Inr None \<Rightarrow> build_map_loop flt records points (skipped + 1)
      | Inr (Some (lat, lon, src)) \<Rightarrow> build_map_loop flt records (points @ [(lat, lon, r)]) skipped)"

definition build_map_points :: "float_parser \<Rightarrow> entry list \<Rightarrow> error + (point list \<times> nat)" where
  "build_map_points flt records = build_map_loop flt records [] 0"

section \<open>adif.py\<close>

text \<open>
  The two markers are the regular expressions \<open><eoh>\<close> and \<open><eor>\<close>, compiled with
  \<open>re.IGNORECASE\<close>: a letter of the pattern matches itself and its capital, any other
  character of the pattern matches itself. \<open>ci_prefix p s\<close> says that the pattern
  matches at the start of \<open>s\<close>.
\<close>

definition ci_char :: "char \<Rightarrow> char \<Rightarrow> bool" where
  "ci_char p c =
     (c = p \<or> (97 \<le> (of_char p :: nat) \<and> (of_char p :: nat) \<le> 122 \<and> (of_char c :: nat) + 32 = of_char p))"

fun ci_prefix :: "string \<Rightarrow> string \<Rightarrow> bool" where
  "ci_prefix [] s = True"
| "ci_prefix (p # ps) [] = False"
| "ci_prefix (p # ps) (c # cs) = (ci_char p c \<and> ci_prefix ps cs)"

fun re_search :: "string \<Rightarrow> string \<Rightarrow> string option" where
  \<comment> \<open>\<open>re.search\<close> for a marker: the text after the end of the first match\<close>
  "re_search p [] = None"
| "re_search p (c # cs) =
     (if ci_prefix p (c # cs) then Some (drop (length p) (c # cs)) else re_search p cs)"

fun re_split :: "string \<Rightarrow> string \<Rightarrow> string \<Rightarrow> string list" where
  \<comment> \<open>\<open>re.split\<close> on a marker; \<open>acc\<close> holds the current piece, reversed\<close>
  "re_split p acc [] = [rev acc]"
| "re_split p acc (c # cs) =
     (if ci_prefix p (c # cs) then rev acc # re_split p [] (drop (length p - 1) cs)
      else re_split p (c # acc) cs)"

text \<open>
  The field pattern \<open><([A-Za-z0-9_]+):(\d+)(?::[^>]*)?>([^<]*)\<close>. Among the code points
  0 to 255 \<open>\d\<close> matches the ten decimal digits. \<open>match_field s\<close> is the match at the
  start of \<open>s\<close>: the three groups and the text after the match. Each repetition is followed
  by a character it cannot match itself, so the longest repetition is the only one that
  can lead to a match.
\<close>

definition is_word :: "char \<Rightarrow> bool" where
  "is_word c = (let n = (of_char c :: nat) in
     (65 \<le> n \<and> n \<le> 90) \<or> (97 \<le> n \<and> n \<le> 122) \<or> (48 \<le> n \<and> n \<le> 57) \<or> n = 95)"

definition close_tag :: "string \<Rightarrow> string option" where
  \<comment> \<open>\<open>(?::[^>]*)?>\<close>: the text after the closing bracket\<close>
  "close_tag s =
     (case s of
        [] \<Rightarrow> None
      | c # t \<Rightarrow>
          if c = CHR '':'' then
            (case dropWhile (\<lambda>x. x \<noteq> CHR ''>'') t of [] \<Rightarrow> None | b # rest \<Rightarrow> Some rest)
          else if c = CHR ''>'' then Some t
          else None)"

definition match_field :: "string \<Rightarrow> (string \<times> string \<times> string \<times> string) option" where
  "match_field s =
     (case s of
        [] \<Rightarrow> None
      | c # s1 \<Rightarrow>
          if c \<noteq> CHR ''<'' then None
          else
            let name = takeWhile is_word s1; s2 = dropWhile is_word s1 in
            if name = [] then None
            else
              (case s2 of
                 [] \<Rightarrow> None
               | c2 # s3 \<Rightarrow>
                   if c2 \<noteq> CHR '':'' then None
                   else
                     let digits = takeWhile is_dec s3; s4 = dropWhile is_dec s3 in
                     if digits = [] then None
                     else
                       (case close_tag s4 of
                          None \<Rightarrow> None
                        | Some s5 \<Rightarrow>
                            Some (name, digits, takeWhile (\<lambda>x. x \<noteq> CHR ''<'') s5,
                                  dropWhile (\<lambda>x. x \<noteq> CHR ''<'') s5))))"

text \<open>
  \<open>finditer\<close>: the matches from left to right, each search starting where the match
  before ended. A match is never empty, which is the termination argument.
\<close>

function finditer :: "string \<Rightarrow> (string \<times> string \<times> string) list" where
  "finditer [] = []"
| "finditer (c # cs) =
     (case match_field (c # cs) of
        None \<Rightarrow> finditer cs
      | Some (name, digits, v, rest) \<Rightarrow> (name, digits, v) # finditer rest)"
  by pat_completeness auto
termination
proof (relation "measure length")
  show "wf (measure length)" by simp
next
  fix c :: char and cs :: string
  show "(cs, c # cs) \<in> measure length" by simp
next
  fix c :: char and cs x2 name y digits ya v rest
  assume m: "match_field (c # cs) = Some x2"
    and x: "(name, y) = x2" "(digits, ya) = y" "(v, rest) = ya"
  have dw: "length (dropWhile P xs) \<le> length xs" for P and xs :: string
    by (rule length_dropWhile_le)
  from m x obtain c2 s3 s5 where s2: "dropWhile is_word cs = c2 # s3"
    and ct: "close_tag (dropWhile is_dec s3) = Some s5"
    and r: "rest = dropWhile (\<lambda>x. x \<noteq> CHR ''<'') s5"
    by (auto simp: match_field_def Let_def split: list.splits if_splits option.splits)
  from ct have "length s5 \<le> length (dropWhile is_dec s3)"
  proof (cases "dropWhile is_dec s3")
    case Nil
    with ct show ?thesis by (simp add: close_tag_def)
  next
    case (Cons d t)
    show ?thesis
    proof (cases "d = CHR '':''")
      case True
      with ct Cons obtain b where "dropWhile (\<lambda>x. x \<noteq> CHR ''>'') t = b # s5"
        by (auto simp: close_tag_def split: list.splits)
      then have "length s5 \<le> length (dropWhile (\<lambda>x. x \<noteq> CHR ''>'') t)" by simp
      also have "\<dots> \<le> length t" by (rule dw)
      finally show ?thesis using Cons by simp
    next
      case False
      with ct Cons show ?thesis by (auto simp: close_tag_def split: if_splits)
    qed
  qed
  moreover have "length rest \<le> length s5" unfolding r by (rule dw)
  moreover have "length (dropWhile is_dec s3) \<le> length s3" by (rule dw)
  moreover have "length s3 < length (dropWhile is_word cs)" by (simp add: s2)
  moreover have "length (dropWhile is_word cs) \<le> length cs" by (rule dw)
  ultimately show "(rest, c # cs) \<in> measure length" by simp
qed

text \<open>
  The body of the loop over the matches. A name matched by the pattern has letters,
  digits and underscores only, so its uppercase stays among the code points of a
  \<open>string\<close> and \<open>char_of\<close> loses nothing. \<open>int\<close> of the matched digits is their decimal
  value, unless there are more than 4300 of them, leading zeros included: then the
  interpreter, with its default limit on integer string conversion, raises ValueError.
  Nothing in \<open>parse_adif\<close> catches it, so it ends the loop over the matches, the loop
  over the chunks and the function. \<open>AList.update\<close> is the assignment
  \<open>entry[name] = ...\<close>: it replaces the value of a key that is there and appends a new key.
\<close>

definition upper_name :: "string \<Rightarrow> string" where
  "upper_name name = map char_of (upper name)"

definition int_of_digits :: "string \<Rightarrow> error + nat" where
  "int_of_digits ds = (if length ds > 4300 then Inl ValueError else Inr (digits_value ds))"

definition store_field :: "string \<times> string \<times> string \<Rightarrow> entry \<Rightarrow> error + entry" where
  "store_field m entry = (case m of (group1, group2, group3) \<Rightarrow>
     let name = upper_name group1 in
     (case int_of_digits group2 of
        Inl e \<Rightarrow> Inl e
      | Inr len \<Rightarrow>
          let val = take len group3
          in Inr (AList.update name (strip val) entry)))"

fun store_fields :: "(string \<times> string \<times> string) list \<Rightarrow> entry \<Rightarrow> error + entry" where
  \<comment> \<open>the loop over the matches of a chunk\<close>
  "store_fields [] entry = Inr entry"
| "store_fields (m # ms) entry =
     (case store_field m entry of Inl e \<Rightarrow> Inl e | Inr entry' \<Rightarrow> store_fields ms entry')"

definition parse_record :: "string \<Rightarrow> error + entry" where
  "parse_record raw = store_fields (finditer raw) []"

fun parse_chunks :: "string list \<Rightarrow> entry list \<Rightarrow> error + entry list" where
  "parse_chunks [] records = Inr records"
| "parse_chunks (raw0 # raw_recs) records =
     (let raw = strip raw0 in
      if raw = [] then parse_chunks raw_recs records
      else
        (case parse_record raw of
           Inl e \<Rightarrow> Inl e
         | Inr entry \<Rightarrow>
             if entry \<noteq> [] then parse_chunks raw_recs (records @ [entry])
             else parse_chunks raw_recs records))"

definition data_section :: "string \<Rightarrow> string" where
  \<comment> \<open>\<open>data = content[header_end.end():] if header_end else content\<close>\<close>
  "data_section content =
     (case re_search ''<eoh>'' content of Some rest \<Rightarrow> rest | None \<Rightarrow> content)"

definition parse_data :: "string \<Rightarrow> error + entry list" where
  \<comment> \<open>the function from \<open>re.split\<close> on\<close>
  "parse_data data = parse_chunks (re_split ''<eor>'' [] data) []"

definition parse_adif :: "string \<Rightarrow> error + entry list" where
  "parse_adif content = parse_data (data_section content)"

section \<open>Notions used in the statements\<close>

definition in_range :: "bool \<Rightarrow> pyfloat \<Rightarrow> bool" where
  \<comment> \<open>the valid range of the axis: latitude when \<open>is_lat\<close>, longitude otherwise\<close>
  "in_range is_lat v =
     (if is_lat then float_le (Finite (- 90)) v \<and> float_le v (Finite 90)
      else float_le (Finite (- 180)) v \<and> float_le v (Finite 180))"

definition signed_value :: "float_parser \<Rightarrow> string \<Rightarrow> pyfloat option" where
  \<comment> \<open>the number a coordinate string stands for, before any range check: the numeric part,
     kept under the suffix N or E and without a suffix, negated under the suffix S or W\<close>
  "signed_value flt text =
     (let s = strip text in
      if s = [] then None
      else if isalpha (last s) then
        (if upper [last s] = cp ''N'' \<or> upper [last s] = cp ''E'' then flt (butlast s)
         else if upper [last s] = cp ''S'' \<or> upper [last s] = cp ''W'' then
           map_option float_neg (flt (butlast s))
         else None)
      else flt s)"

fun occurs :: "string \<Rightarrow> string \<Rightarrow> bool" where
  \<comment> \<open>the marker matches somewhere in the text\<close>
  "occurs p [] = False"
| "occurs p (c # cs) = (ci_prefix p (c # cs) \<or> occurs p cs)"

definition ci_match :: "string \<Rightarrow> string \<Rightarrow> bool" where
  \<comment> \<open>\<open>m\<close> is a spelling of the marker \<open>p\<close> in some letter case\<close>
  "ci_match p m = (length m = length p \<and> ci_prefix p m)"

definition then_records :: "error + entry list \<Rightarrow> error + entry list \<Rightarrow> error + entry list" where
  \<comment> \<open>the records of a first part followed by those of a second, or the exception of either\<close>
  "then_records r s =
     (case r of
        Inl e \<Rightarrow> Inl e
      | Inr xs \<Rightarrow> (case s of Inl e \<Rightarrow> Inl e | Inr ys \<Rightarrow> Inr (xs @ ys)))"

section \<open>Evaluation\<close>

lemmas str_defs = cp_def strip_def isspace_def upper_def upper_cp_def isalpha_def isalpha_cp_def
  isdigit_def isdigit_cp_def py_int_def is_dec_def digits_value_def

lemmas maidenhead_defs = maidenhead_to_latlon_def field_pair_def square_pair_def
  subsquare_pair_def extended_pair_def cell_size_def and_then_def

lemmas resolve_defs = best_latlon_def parse_latlon_def parse_coord_def float_dec_def
  truthy_def py_or_def

section \<open>The Maidenhead converter\<close>

text \<open>
  Claim C4, as the code has it: \<open>maidenhead_to_latlon\<close> applied to \<open>FN20\<close> returns the
  centre of the 2 by 1 degree cell whose lower left corner is latitude 40, longitude -76,
  which is exactly (40.5, -75.0).
\<close>

theorem maidenhead_FN20_center:
  "maidenhead_to_latlon ''FN20'' = Inr (Some (Finite (81 / 2), Finite (- 75)))"
  by (simp add: maidenhead_defs str_defs)

text \<open>
  The result for \<open>FN20\<close> is not within 0.01 degrees of (41.0, -72.0).
\<close>

theorem maidenhead_FN20_not_near_41_72:
  "\<not> near (1 / 100) (maidenhead_to_latlon ''FN20'') (41, - 72)"
  by (simp add: near_def maidenhead_defs str_defs)

text \<open>
  What the function does reject: the empty string, and a grid whose stripped, uppercased
  form has 1, 3, 5 or 7 characters never gives a coordinate.
\<close>

lemma maidenhead_odd_length:
  assumes "length (upper (strip grid)) \<in> {1, 3, 5, 7}"
  shows "maidenhead_to_latlon grid \<noteq> Inr (Some p)"
proof -
  let ?g = "upper (strip grid)"
  from assms consider "length ?g = 1" | "length ?g = 3" | "length ?g = 5" | "length ?g = 7"
    by auto
  then show ?thesis
  proof cases
    case 1
    then show ?thesis by (simp add: maidenhead_to_latlon_def Let_def)
  next
    case 2
    then have "square_pair ?g (field_pair ?g) = Inr None"
      by (simp add: square_pair_def split: prod.splits)
    then show ?thesis by (simp add: maidenhead_to_latlon_def Let_def and_then_def)
  next
    case 3
    then have "subsquare_pair ?g q = Inr None" for q
      by (simp add: subsquare_pair_def split: prod.splits)
    then show ?thesis
      by (simp add: maidenhead_to_latlon_def Let_def and_then_def split: sum.splits option.splits)
  next
    case 4
    then have "extended_pair ?g q = Inr None" for q
      by (simp add: extended_pair_def split: prod.splits)
    then show ?thesis
      by (simp add: maidenhead_to_latlon_def Let_def and_then_def split: sum.splits option.splits)
  qed
qed

text \<open>
  Claim C2 says that \<open>maidenhead_to_latlon\<close> never raises and returns None for every
  invalid grid. The function does neither: the digits in the first two positions of \<open>12\<close>
  are taken as field letters; the last pair of \<open>AA00AAXX\<close> is not made of digits and is
  passed over; and for the superscript two (U+00B2) in the digit positions, which
  \<open>str.isdigit\<close> accepts and \<open>int\<close> rejects, the ValueError of \<open>int\<close> leaves the function.
\<close>

theorem maidenhead_invalid_grids:
  "maidenhead_to_latlon ''12'' = Inr (Some (Finite (- 235), Finite (- 490)))
   \<and> maidenhead_to_latlon ''AA00AAXX'' = Inr (Some (Finite (- 90 + 1 / 480), Finite (- 180 + 1 / 240)))
   \<and> maidenhead_to_latlon [CHR ''A'', CHR ''A'', CHR 0xB2, CHR 0xB2] = Inl ValueError"
  by (simp add: maidenhead_defs str_defs)

section \<open>The resolver\<close>

text \<open>
  Claim C1 says that every coordinate \<open>best_latlon\<close> returns has its latitude in
  [-90, 90] and its longitude in [-180, 180]. For a record whose grid square is \<open>ZZ\<close> the
  function returns latitude 165 and longitude 330: nothing checks the field letters
  or the range of a coordinate that comes from a grid square.
\<close>

theorem best_latlon_grid_out_of_range:
  "best_latlon float_dec [(''GRIDSQUARE'', ''ZZ'')] = Inr (Some (Finite 165, Finite 330, ''GRID''))
   \<and> \<not> in_range True (Finite 165) \<and> \<not> in_range False (Finite 330)"
  by (simp add: resolve_defs maidenhead_defs str_defs in_range_def)

subsection \<open>Direct coordinates\<close>

lemma upper_single_nonempty: "upper [c] \<noteq> []"
  by (simp add: upper_def upper_cp_def)

lemma parse_coord_checked:
  "parse_coord flt text is_lat = Some v \<Longrightarrow> in_range is_lat v"
  by (auto simp: parse_coord_def Let_def in_range_def split: if_splits option.splits)

lemma in_range_Finite:
  "in_range is_lat v \<Longrightarrow>
     \<exists>x. v = Finite x \<and> (if is_lat then - 90 \<le> x \<and> x \<le> 90 else - 180 \<le> x \<and> x \<le> 180)"
  by (cases v) (auto simp: in_range_def split: if_splits)

lemma parse_coord_signed_value:
  "parse_coord flt text is_lat =
     (case signed_value flt text of None \<Rightarrow> None
      | Some x \<Rightarrow> if in_range is_lat x then Some x else None)"
  using upper_single_nonempty [of "last (strip text)"]
  by (cases is_lat)
     (auto simp: parse_coord_def signed_value_def Let_def in_range_def split: option.splits)



text \<open>
  Claim C3, as the code has it: when the stripped coordinate string ends in a letter,
  \<open>_parse_coord\<close> accepts the letters N, E, S and W, in either case and on either axis.
  N and E leave the number as it is, S and W negate it, every other letter makes the
  parse fail; the axis only selects the range the signed number must lie in. So a
  suffix of the other axis is accepted: \<open>40.0W\<close> read as a latitude is -40.
\<close>

theorem parse_coord_suffix:
  assumes "strip text = body @ [c]" and "isalpha c"
  shows "parse_coord flt text is_lat =
     (if upper [c] = cp ''N'' \<or> upper [c] = cp ''E'' then
        (case flt body of None \<Rightarrow> None
         | Some x \<Rightarrow> if in_range is_lat x then Some x else None)
      else if upper [c] = cp ''S'' \<or> upper [c] = cp ''W'' then
        (case flt body of None \<Rightarrow> None
         | Some x \<Rightarrow> if in_range is_lat (float_neg x) then Some (float_neg x) else None)
      else None)"
  using assms upper_single_nonempty [of c]
  by (cases is_lat) (auto simp: parse_coord_def Let_def in_range_def split: option.splits)

theorem parse_coord_suffix_witness:
  "strip ''40.0s'' = ''40.0'' @ [CHR ''s''] \<and> isalpha (CHR ''s'')
   \<and> parse_coord float_dec ''40.0s'' False = Some (Finite (- 40))"
proof -
  have h1: "strip ''40.0s'' = ''40.0'' @ [CHR ''s'']" by (simp add: str_defs)
  have h2: "isalpha (CHR ''s'')" by (simp add: str_defs)
  have "parse_coord float_dec ''40.0s'' False = Some (Finite (- 40))"
    unfolding parse_coord_suffix [OF h1 h2]
    by (simp add: float_dec_def in_range_def str_defs)
  with h1 h2 show ?thesis by simp
qed

text \<open>
  The latitude string \<open>40.0W\<close>, whose suffix belongs to the longitude axis, does not make
  the parse fail.
\<close>

theorem parse_coord_wrong_axis_accepted:
  "parse_coord float_dec ''40.0W'' True = Some (Finite (- 40))"
  by (simp add: parse_coord_def float_dec_def str_defs)

text \<open>
  Claim C9: a coordinate string that stands for a number outside the range of its axis
  is rejected by \<open>_parse_coord\<close>, not clamped. The resolver then takes no coordinate from
  the LAT and LON fields of a record that carries such a string, and returns None when
  the record has no grid square to fall back on.
\<close>

theorem parse_coord_out_of_range_rejected:
  assumes "signed_value flt text = Some x" and "\<not> in_range is_lat x"
  shows "parse_coord flt text is_lat = None
    \<and> (map_of entry (if is_lat then ''LAT'' else ''LON'') = Some text \<longrightarrow>
         (\<forall>a b. best_latlon flt entry \<noteq> Inr (Some (a, b, ''LATLON'')))
         \<and> (\<not> truthy (py_or (map_of entry ''GRIDSQUARE'') (map_of entry ''MY_GRIDSQUARE''))
              \<longrightarrow> best_latlon flt entry = Inr None))"
proof -
  from assms have none: "parse_coord flt text is_lat = None"
    by (simp add: parse_coord_signed_value)
  have direct: "parse_latlon flt lat lon = None"
    if "(if is_lat then lat else lon) = text" for lat lon
    using that none by (cases is_lat) (auto simp: parse_latlon_def split: option.splits)
  have "best_latlon flt entry \<noteq> Inr (Some (a, b, ''LATLON''))"
    if "map_of entry (if is_lat then ''LAT'' else ''LON'') = Some text" for a b
    using that direct
    by (cases is_lat)
       (auto simp: best_latlon_def split: option.splits if_splits sum.splits)
  moreover have "best_latlon flt entry = Inr None"
    if "map_of entry (if is_lat then ''LAT'' else ''LON'') = Some text"
      and "\<not> truthy (py_or (map_of entry ''GRIDSQUARE'') (map_of entry ''MY_GRIDSQUARE''))"
    using that direct
    by (cases is_lat)
       (auto simp: best_latlon_def truthy_def split: option.splits if_splits sum.splits)
  ultimately show ?thesis using none by blast
qed

theorem parse_coord_out_of_range_rejected_witness:
  "signed_value float_dec ''95N'' = Some (Finite 95) \<and> \<not> in_range True (Finite 95)
   \<and> parse_coord float_dec ''95N'' True = None
   \<and> map_of [(''LAT'', ''95N''), (''LON'', ''10E'')] ''LAT'' = Some ''95N''
   \<and> \<not> truthy (py_or (map_of [(''LAT'', ''95N''), (''LON'', ''10E'')] ''GRIDSQUARE'')
                      (map_of [(''LAT'', ''95N''), (''LON'', ''10E'')] ''MY_GRIDSQUARE''))
   \<and> best_latlon float_dec [(''LAT'', ''95N''), (''LON'', ''10E'')] = Inr None"
proof -
  have h1: "signed_value float_dec ''95N'' = Some (Finite 95)"
    by (simp add: signed_value_def float_dec_def str_defs)
  have h2: "\<not> in_range True (Finite 95)" by (simp add: in_range_def)
  have h3: "map_of [(''LAT'', ''95N''), (''LON'', ''10E'')] (if True then ''LAT'' else ''LON'') = Some ''95N''"
    by simp
  have h4: "\<not> truthy (py_or (map_of [(''LAT'', ''95N''), (''LON'', ''10E'')] ''GRIDSQUARE'')
                          (map_of [(''LAT'', ''95N''), (''LON'', ''10E'')] ''MY_GRIDSQUARE''))"
    by (simp add: truthy_def py_or_def)
  from parse_coord_out_of_range_rejected [OF h1 h2, of "[(''LAT'', ''95N''), (''LON'', ''10E'')]"] h3 h4
  have "parse_coord float_dec ''95N'' True = None"
    and "best_latlon float_dec [(''LAT'', ''95N''), (''LON'', ''10E'')] = Inr None"
    by blast+
  with h1 h2 h3 h4 show ?thesis by simp
qed

subsection \<open>The order of the sources\<close>

text \<open>
  Claim C5: when the LAT and LON fields of a record are both there and non-empty and
  parse to a pair, \<open>best_latlon\<close> returns that pair with the tag LATLON, whatever the
  grid-square fields of the record hold; both components are in range.
\<close>

theorem best_latlon_prefers_direct:
  assumes "map_of entry ''LAT'' = Some lat" and "lat \<noteq> []"
    and "map_of entry ''LON'' = Some lon" and "lon \<noteq> []"
    and "parse_latlon flt lat lon = Some (a, b)"
  shows "best_latlon flt entry = Inr (Some (a, b, ''LATLON''))
         \<and> in_range True a \<and> in_range False b"
proof -
  from assms(5) have "parse_coord flt lat True = Some a" and "parse_coord flt lon False = Some b"
    by (auto simp: parse_latlon_def split: option.splits)
  then have "in_range True a" and "in_range False b"
    by (auto dest: parse_coord_checked)
  moreover from assms have "best_latlon flt entry = Inr (Some (a, b, ''LATLON''))"
    by (simp add: best_latlon_def)
  ultimately show ?thesis by simp
qed

theorem best_latlon_prefers_direct_witness:
  "map_of [(''LAT'', ''40.00N''), (''LON'', ''074.0W''), (''GRIDSQUARE'', ''FN20'')] ''LAT'' = Some ''40.00N''
   \<and> ''40.00N'' \<noteq> []
   \<and> map_of [(''LAT'', ''40.00N''), (''LON'', ''074.0W''), (''GRIDSQUARE'', ''FN20'')] ''LON'' = Some ''074.0W''
   \<and> ''074.0W'' \<noteq> []
   \<and> parse_latlon float_dec ''40.00N'' ''074.0W'' = Some (Finite 40, Finite (- 74))
   \<and> best_latlon float_dec [(''LAT'', ''40.00N''), (''LON'', ''074.0W''), (''GRIDSQUARE'', ''FN20'')]
       = Inr (Some (Finite 40, Finite (- 74), ''LATLON''))"
proof -
  let ?e = "[(''LAT'', ''40.00N''), (''LON'', ''074.0W''), (''GRIDSQUARE'', ''FN20'')]"
  have h1: "map_of ?e ''LAT'' = Some ''40.00N''" by simp
  have h2: "''40.00N'' \<noteq> []" by simp
  have h3: "map_of ?e ''LON'' = Some ''074.0W''" by simp
  have h4: "''074.0W'' \<noteq> []" by simp
  have h5: "parse_latlon float_dec ''40.00N'' ''074.0W'' = Some (Finite 40, Finite (- 74))"
    by (simp add: parse_latlon_def parse_coord_def float_dec_def str_defs)
  from best_latlon_prefers_direct [OF h1 h2 h3 h4 h5]
  have "best_latlon float_dec ?e = Inr (Some (Finite 40, Finite (- 74), ''LATLON''))" by blast
  with h1 h3 h5 show ?thesis by simp
qed




section \<open>The ADIF parser\<close>

lemmas adif_defs = match_field_def close_tag_def is_word_def int_of_digits_def store_field_def
  parse_record_def upper_name_def data_section_def parse_data_def parse_adif_def ci_char_def
  ci_match_def char_of_def bit_Suc_0_iff

text \<open>
  The test of the repository, \<open>test_parse_simple_adif\<close>, run on the model: two records,
  in the order of the text, with the field names uppercased.
\<close>

lemma test_parse_simple_adif:
  "parse_adif (''<CALL:5>TEST1<QSO_DATE:8>20250101<TIME_ON:4>1234<GRIDSquare:4>FN20<EOR>'' @ [CHR 0x0A]
     @ ''<CALL:5>TEST2<QSO_DATE:8>20250102<TIME_ON:4>2345<LAT:6>40.00N<LON:7>074.0W<EOR>'' @ [CHR 0x0A])
   = Inr [[(''CALL'', ''TEST1''), (''QSO_DATE'', ''20250101''), (''TIME_ON'', ''1234''), (''GRIDSQUARE'', ''FN20'')],
      [(''CALL'', ''TEST2''), (''QSO_DATE'', ''20250102''), (''TIME_ON'', ''2345''), (''LAT'', ''40.00N''),
       (''LON'', ''074.0W'')]]"
  by code_simp

subsection \<open>Matched tags\<close>

text \<open>
  The pattern on a tag that is written as the format asks: a name of letters, digits and
  underscores, a length in decimal digits, an optional type code, and a value that runs
  up to the next opening bracket or to the end of the chunk.
\<close>

lemma takeWhile_all_then: "list_all P xs \<Longrightarrow> \<not> P y \<Longrightarrow> takeWhile P (xs @ y # ys) = xs"
  by (induction xs) auto

lemma dropWhile_all_then: "list_all P xs \<Longrightarrow> \<not> P y \<Longrightarrow> dropWhile P (xs @ y # ys) = y # ys"
  by (induction xs) auto

lemma value_split:
  assumes "CHR ''<'' \<notin> set v" and "takeWhile (\<lambda>x. x \<noteq> CHR ''<'') rest = []"
  shows "takeWhile (\<lambda>x. x \<noteq> CHR ''<'') (v @ rest) = v"
    and "dropWhile (\<lambda>x. x \<noteq> CHR ''<'') (v @ rest) = rest"
proof -
  from assms(2) have "dropWhile (\<lambda>x. x \<noteq> CHR ''<'') rest = rest"
    by (metis append_Nil takeWhile_dropWhile_id)
  with assms show "takeWhile (\<lambda>x. x \<noteq> CHR ''<'') (v @ rest) = v"
    and "dropWhile (\<lambda>x. x \<noteq> CHR ''<'') (v @ rest) = rest"
    by (induction v) auto
qed

lemma match_field_tag:
  assumes "name \<noteq> []" and "list_all is_word name"
    and "digits \<noteq> []" and "list_all is_dec digits"
    and "CHR ''>'' \<notin> set typecode"
    and "CHR ''<'' \<notin> set v" and "takeWhile (\<lambda>x. x \<noteq> CHR ''<'') rest = []"
  shows "match_field (''<'' @ name @ '':'' @ digits @ ''>'' @ v @ rest) = Some (name, digits, v, rest)"
    and "match_field (''<'' @ name @ '':'' @ digits @ '':'' @ typecode @ ''>'' @ v @ rest)
           = Some (name, digits, v, rest)"
proof -
  have nw: "\<not> is_word (CHR '':'')" and nd: "\<not> is_dec (CHR '':'')" "\<not> is_dec (CHR ''>'')"
    by (simp_all add: is_word_def is_dec_def)
  have tc: "dropWhile (\<lambda>x. x \<noteq> CHR ''>'') (typecode @ CHR ''>'' # v @ rest) = CHR ''>'' # v @ rest"
    using assms(5) by (induction typecode) auto
  show "match_field (''<'' @ name @ '':'' @ digits @ ''>'' @ v @ rest) = Some (name, digits, v, rest)"
    using assms(1,3)
    by (simp add: match_field_def Let_def close_tag_def
        takeWhile_all_then [OF assms(2) nw] dropWhile_all_then [OF assms(2) nw]
        takeWhile_all_then [OF assms(4) nd(2)] dropWhile_all_then [OF assms(4) nd(2)]
        value_split [OF assms(6,7)])
  show "match_field (''<'' @ name @ '':'' @ digits @ '':'' @ typecode @ ''>'' @ v @ rest)
           = Some (name, digits, v, rest)"
    using assms(1,3)
    by (simp add: match_field_def Let_def close_tag_def tc
        takeWhile_all_then [OF assms(2) nw] dropWhile_all_then [OF assms(2) nw]
        takeWhile_all_then [OF assms(4) nd(1)] dropWhile_all_then [OF assms(4) nd(1)]
        value_split [OF assms(6,7)])
qed

lemma finditer_tag:
  assumes "match_field (c # cs) = Some (name, digits, v, rest)"
  shows "finditer (c # cs) = (name, digits, v) # finditer rest"
  using assms by simp

text \<open>
  What the loop over the matches stores, as long as no length has more than 4300
  digits: under the uppercased name of a match, the first LENGTH characters of its value,
  stripped after the cut, unless a later match of the chunk has the same uppercased name.
\<close>

lemma store_field_other:
  "store_field m entry = Inr entry' \<Longrightarrow> upper_name (fst m) \<noteq> k \<Longrightarrow> map_of entry' k = map_of entry k"
  by (cases m) (auto simp: store_field_def Let_def update_conv' split: sum.splits)

lemma store_field_same:
  "length digits \<le> 4300 \<Longrightarrow>
     \<exists>entry'. store_field (name, digits, v) entry = Inr entry'
       \<and> map_of entry' (upper_name name) = Some (strip (take (digits_value digits) v))"
  by (simp add: store_field_def int_of_digits_def Let_def update_conv')

lemma store_field_raises:
  "length digits > 4300 \<Longrightarrow> store_field (name, digits, v) entry = Inl ValueError"
  by (simp add: store_field_def int_of_digits_def)

lemma store_fields_other:
  "store_fields ms entry = Inr entry' \<Longrightarrow> \<forall>m \<in> set ms. upper_name (fst m) \<noteq> k \<Longrightarrow>
     map_of entry' k = map_of entry k"
proof (induction ms arbitrary: entry)
  case Nil
  then show ?case by simp
next
  case (Cons m ms)
  from Cons.prems(1) obtain mid where one: "store_field m entry = Inr mid"
    and rest: "store_fields ms mid = Inr entry'"
    by (auto split: sum.splits)
  from Cons.IH [OF rest] Cons.prems(2) have "map_of entry' k = map_of mid k" by simp
  also from store_field_other [OF one] Cons.prems(2) have "\<dots> = map_of entry k" by simp
  finally show ?case .
qed

lemma store_fields_returns:
  "\<forall>m \<in> set ms. length (fst (snd m)) \<le> 4300 \<Longrightarrow> \<exists>entry'. store_fields ms entry = Inr entry'"
proof (induction ms arbitrary: entry)
  case Nil
  show ?case by simp
next
  case (Cons m ms)
  obtain name digits v where m: "m = (name, digits, v)" by (cases m)
  with Cons.prems have "length digits \<le> 4300" by simp
  from store_field_same [OF this] obtain mid where "store_field m entry = Inr mid"
    unfolding m by blast
  moreover from Cons.IH [of mid] Cons.prems obtain entry' where "store_fields ms mid = Inr entry'"
    by auto
  ultimately show ?case by simp
qed

lemma store_fields_append:
  "store_fields (xs @ ys) entry =
     (case store_fields xs entry of Inl e \<Rightarrow> Inl e | Inr mid \<Rightarrow> store_fields ys mid)"
  by (induction xs arbitrary: entry) (auto split: sum.splits)

lemma strip_empty: "strip [] = []"
  by (simp add: strip_def)

lemma finditer_nonempty: "finditer s \<noteq> [] \<Longrightarrow> s \<noteq> []"
  by (cases s) auto

lemma parse_record_stores_field:
  assumes "finditer (strip chunk) = before @ (name, digits, v) # after"
    and "\<forall>m \<in> set (before @ (name, digits, v) # after). length (fst (snd m)) \<le> 4300"
    and "\<forall>m \<in> set after. upper_name (fst m) \<noteq> upper_name name"
  shows "\<exists>entry. parse_chunks [chunk] [] = Inr [entry]
     \<and> map_of entry (upper_name name) = Some (strip (take (digits_value digits) v))
     \<and> (length v \<le> digits_value digits \<longrightarrow> map_of entry (upper_name name) = Some (strip v))
     \<and> (digits_value digits = 0 \<longrightarrow> map_of entry (upper_name name) = Some [])"
proof -
  from assms(2) have lens: "\<forall>m \<in> set before. length (fst (snd m)) \<le> 4300"
    "length digits \<le> 4300" "\<forall>m \<in> set after. length (fst (snd m)) \<le> 4300"
    by auto
  from store_fields_returns [OF lens(1)] obtain e1 where e1: "store_fields before [] = Inr e1"
    by blast
  from store_field_same [OF lens(2)] obtain e2 where e2: "store_field (name, digits, v) e1 = Inr e2"
    and stored: "map_of e2 (upper_name name) = Some (strip (take (digits_value digits) v))"
    by blast
  from store_fields_returns [OF lens(3)] obtain e3 where e3: "store_fields after e2 = Inr e3"
    by blast
  have run: "parse_record (strip chunk) = Inr e3"
    by (simp add: parse_record_def assms(1) store_fields_append e1 e2 e3)
  from store_fields_other [OF e3 assms(3)] stored
  have final: "map_of e3 (upper_name name) = Some (strip (take (digits_value digits) v))" by simp
  then have "e3 \<noteq> []" by auto
  moreover have "strip chunk \<noteq> []" using assms(1) finditer_nonempty [of "strip chunk"] by simp
  ultimately have "parse_chunks [chunk] [] = Inr [e3]" by (simp add: Let_def run)
  with final show ?thesis by (auto simp: strip_empty)
qed

lemma parse_chunks_example:
  "parse_chunks ['' <call:3:S>ab <x:0>zzz <Call:9>  q  ''] [] = Inr [[(''CALL'', ''q''), (''X'', [])]]"
  by (simp add: adif_defs str_defs)

subsection \<open>Markers and chunks\<close>

lemma ci_prefix_append: "ci_prefix p xs \<Longrightarrow> ci_prefix p (xs @ ys)"
  by (induction p xs rule: ci_prefix.induct) auto

lemma ci_prefix_shorten:
  "ci_prefix p (xs @ ys) \<Longrightarrow> length p \<le> length xs \<Longrightarrow> ci_prefix p xs"
  by (induction p xs rule: ci_prefix.induct) auto

lemma re_search_first:
  assumes "ci_match p m" and "p \<noteq> []" and "\<not> occurs p (pre @ butlast m)"
  shows "re_search p (pre @ m @ rest) = Some rest"
  using assms(3)
proof (induction pre)
  case Nil
  from assms(1,2) obtain c m' where m: "m = c # m'" and len: "length m = length p"
    and pre: "ci_prefix p m"
    by (cases m) (auto simp: ci_match_def)
  from pre have "ci_prefix p (m @ rest)" by (rule ci_prefix_append)
  moreover have "drop (length p) (m @ rest) = rest" using len by simp
  ultimately show ?case using m by (simp del: drop_append)
next
  case (Cons a pre)
  from assms(1,2) have len: "length m = length p" and ne: "m \<noteq> []"
    by (auto simp: ci_match_def)
  have split: "a # pre @ m @ rest = (a # pre @ butlast m) @ (last m # rest)"
    using ne by simp
  from Cons.prems have no: "\<not> ci_prefix p (a # pre @ butlast m)"
    and tail: "\<not> occurs p (pre @ butlast m)" by simp_all
  have "\<not> ci_prefix p (a # pre @ m @ rest)"
  proof
    assume "ci_prefix p (a # pre @ m @ rest)"
    then have "ci_prefix p ((a # pre @ butlast m) @ (last m # rest))" by (simp only: split)
    moreover have "length p \<le> length (a # pre @ butlast m)" using len ne by simp
    ultimately have "ci_prefix p (a # pre @ butlast m)" by (rule ci_prefix_shorten)
    with no show False by contradiction
  qed
  with Cons.IH [OF tail] show ?case by simp
qed

lemma re_search_none: "\<not> occurs p s \<Longrightarrow> re_search p s = None"
  by (induction s) auto

lemma re_split_first:
  assumes "ci_match p m" and "p \<noteq> []" and "\<not> occurs p (a @ butlast m)"
  shows "re_split p acc (a @ m @ b) = (rev acc @ a) # re_split p [] b"
  using assms(3)
proof (induction a arbitrary: acc)
  case Nil
  from assms(1,2) obtain c m' where m: "m = c # m'" and len: "length m = length p"
    and pre: "ci_prefix p m"
    by (cases m) (auto simp: ci_match_def)
  from pre have "ci_prefix p (m @ b)" by (rule ci_prefix_append)
  moreover have "drop (length p - 1) (m' @ b) = b" using m len by auto
  ultimately show ?case using m by simp
next
  case (Cons x a)
  from assms(1,2) have len: "length m = length p" and ne: "m \<noteq> []"
    by (auto simp: ci_match_def)
  have split: "x # a @ m @ b = (x # a @ butlast m) @ (last m # b)"
    using ne by simp
  from Cons.prems have no: "\<not> ci_prefix p (x # a @ butlast m)"
    and tail: "\<not> occurs p (a @ butlast m)" by simp_all
  have "\<not> ci_prefix p (x # a @ m @ b)"
  proof
    assume "ci_prefix p (x # a @ m @ b)"
    then have "ci_prefix p ((x # a @ butlast m) @ (last m # b))" by (simp only: split)
    moreover have "length p \<le> length (x # a @ butlast m)" using len ne by simp
    ultimately have "ci_prefix p (x # a @ butlast m)" by (rule ci_prefix_shorten)
    with no show False by contradiction
  qed
  with Cons.IH [OF tail, of "x # acc"] show ?case by simp
qed

lemma re_split_none: "\<not> occurs p a \<Longrightarrow> re_split p acc a = [rev acc @ a]"
  by (induction a arbitrary: acc) auto

lemma parse_chunks_acc:
  "parse_chunks chunks records =
     (case parse_chunks chunks [] of Inl e \<Rightarrow> Inl e | Inr rs \<Rightarrow> Inr (records @ rs))"
proof (induction chunks arbitrary: records)
  case Nil
  show ?case by simp
next
  case (Cons raw0 chunks)
  show ?case
  proof (cases "strip raw0 = []")
    case True
    with Cons.IH [of records] show ?thesis by simp
  next
    case False
    show ?thesis
    proof (cases "parse_record (strip raw0)")
      case (Inl e)
      with False show ?thesis by simp
    next
      case (Inr entry)
      with False Cons.IH [of "records @ [entry]"] Cons.IH [of "[entry]"] Cons.IH [of records]
      show ?thesis by (auto simp: Let_def split: sum.splits)
    qed
  qed
qed

lemma parse_chunks_append:
  "parse_chunks (xs @ ys) records =
     (case parse_chunks xs records of Inl e \<Rightarrow> Inl e | Inr rs \<Rightarrow> parse_chunks ys rs)"
  by (induction xs arbitrary: records) (auto simp: Let_def split: sum.splits)

lemma parse_record_empty: "finditer raw = [] \<Longrightarrow> parse_record raw = Inr []"
  by (simp add: parse_record_def)

lemma parse_chunks_blank:
  "strip a = [] \<or> finditer (strip a) = [] \<Longrightarrow> parse_chunks [a] records = Inr records"
  by (auto simp: Let_def parse_record_empty)

text \<open>
  Claim C7: the markers are matched in any letter case. Everything up to and including
  the first end-of-header marker is dropped, and a text without one is data as a whole.
  The data is cut at each end-of-record marker, the records of a chunk coming before
  those of the chunks after it; and a chunk that is all whitespace, or in which the
  pattern matches no tag, adds no record.
\<close>

theorem parse_adif_markers:
  "(ci_match ''<eoh>'' m \<and> \<not> occurs ''<eoh>'' (pre @ butlast m)
      \<longrightarrow> parse_adif (pre @ m @ rest) = parse_data rest)
   \<and> (\<not> occurs ''<eoh>'' content \<longrightarrow> parse_adif content = parse_data content)
   \<and> (ci_match ''<eor>'' m' \<and> \<not> occurs ''<eor>'' (a @ butlast m')
      \<longrightarrow> parse_data (a @ m' @ b) = then_records (parse_chunks [a] []) (parse_data b))
   \<and> (\<not> occurs ''<eor>'' a \<longrightarrow> parse_data a = parse_chunks [a] [])
   \<and> (strip raw = [] \<or> finditer (strip raw) = []
      \<longrightarrow> parse_chunks (xs @ raw # ys) records = parse_chunks (xs @ ys) records)"
proof (intro conjI impI)
  assume "ci_match ''<eoh>'' m \<and> \<not> occurs ''<eoh>'' (pre @ butlast m)"
  then have "re_search ''<eoh>'' (pre @ m @ rest) = Some rest"
    by (intro re_search_first) simp_all
  then show "parse_adif (pre @ m @ rest) = parse_data rest"
    by (simp add: parse_adif_def data_section_def)
next
  assume "\<not> occurs ''<eoh>'' content"
  then have "re_search ''<eoh>'' content = None" by (rule re_search_none)
  then show "parse_adif content = parse_data content"
    by (simp add: parse_adif_def data_section_def)
next
  assume "ci_match ''<eor>'' m' \<and> \<not> occurs ''<eor>'' (a @ butlast m')"
  then have "re_split ''<eor>'' [] (a @ m' @ b) = a # re_split ''<eor>'' [] b"
    using re_split_first [of "''<eor>''" m' a "[]" b] by simp
  then have "parse_data (a @ m' @ b) = parse_chunks ([a] @ re_split ''<eor>'' [] b) []"
    by (simp add: parse_data_def)
  also have "\<dots> = (case parse_chunks [a] [] of Inl e \<Rightarrow> Inl e
                    | Inr rs \<Rightarrow> parse_chunks (re_split ''<eor>'' [] b) rs)"
    by (rule parse_chunks_append)
  also have "\<dots> = then_records (parse_chunks [a] []) (parse_data b)"
  proof (cases "parse_chunks [a] []")
    case (Inl e)
    then show ?thesis by (simp add: then_records_def)
  next
    case (Inr rs)
    have "parse_chunks (re_split ''<eor>'' [] b) rs
        = (case parse_data b of Inl e \<Rightarrow> Inl e | Inr ys \<Rightarrow> Inr (rs @ ys))"
      unfolding parse_data_def by (rule parse_chunks_acc)
    with Inr show ?thesis by (simp add: then_records_def)
  qed
  finally show "parse_data (a @ m' @ b) = then_records (parse_chunks [a] []) (parse_data b)" .
next
  assume "\<not> occurs ''<eor>'' a"
  then show "parse_data a = parse_chunks [a] []"
    by (simp add: parse_data_def re_split_none)
next
  assume blank: "strip raw = [] \<or> finditer (strip raw) = []"
  show "parse_chunks (xs @ raw # ys) records = parse_chunks (xs @ ys) records"
  proof (cases "parse_chunks xs records")
    case (Inl e)
    then show ?thesis by (simp add: parse_chunks_append)
  next
    case (Inr rs)
    have "parse_chunks (raw # ys) rs = parse_chunks ([raw] @ ys) rs" by simp
    also have "\<dots> = parse_chunks ys rs"
      unfolding parse_chunks_append [of "[raw]" ys] parse_chunks_blank [OF blank] by simp
    finally show ?thesis using Inr by (simp add: parse_chunks_append)
  qed
qed

theorem parse_adif_markers_witness:
  "ci_match ''<eoh>'' ''<EoH>'' \<and> \<not> occurs ''<eoh>'' (''hdr <ver:1>3 '' @ butlast ''<EoH>'')
   \<and> parse_adif (''hdr <ver:1>3 '' @ ''<EoH>'' @ ''<call:2>AB<eor>'') = parse_data ''<call:2>AB<eor>''
   \<and> \<not> occurs ''<eoh>'' ''<call:2>AB<eor>''
   \<and> parse_adif ''<call:2>AB<eor>'' = parse_data ''<call:2>AB<eor>''
   \<and> ci_match ''<eor>'' ''<eOR>'' \<and> \<not> occurs ''<eor>'' (''<call:2>AB'' @ butlast ''<eOR>'')
   \<and> parse_data (''<call:2>AB'' @ ''<eOR>'' @ ''<call:2>CD'')
         = then_records (parse_chunks [''<call:2>AB''] []) (parse_data ''<call:2>CD'')
   \<and> \<not> occurs ''<eor>'' ''<call:2>AB''
   \<and> parse_data ''<call:2>AB'' = parse_chunks [''<call:2>AB''] []
   \<and> (strip ''  '' = [] \<or> finditer (strip ''  '') = [])
   \<and> parse_chunks ([''<call:2>AB''] @ ''  '' # [''no tag'']) [] = parse_chunks ([''<call:2>AB''] @ [''no tag'']) []"
proof -
  have h1: "ci_match ''<eoh>'' ''<EoH>'' \<and> \<not> occurs ''<eoh>'' (''hdr <ver:1>3 '' @ butlast ''<EoH>'')"
    by (simp add: ci_match_def ci_char_def)
  have h2: "\<not> occurs ''<eoh>'' ''<call:2>AB<eor>''"
    by (simp add: ci_char_def)
  have h3: "ci_match ''<eor>'' ''<eOR>'' \<and> \<not> occurs ''<eor>'' (''<call:2>AB'' @ butlast ''<eOR>'')"
    by (simp add: ci_match_def ci_char_def)
  have h4: "\<not> occurs ''<eor>'' ''<call:2>AB''"
    by (simp add: ci_char_def)
  have h5: "strip ''  '' = [] \<or> finditer (strip ''  '') = []"
    by (simp add: str_defs)
  note inst = parse_adif_markers [of "''<EoH>''" "''hdr <ver:1>3 ''" "''<call:2>AB<eor>''"
      "''<call:2>AB<eor>''" "''<eOR>''" "''<call:2>AB''" "''<call:2>CD''" "''  ''"
      "[''<call:2>AB'']" "[''no tag'']" "[]"]
  from inst h1 have c1: "parse_adif (''hdr <ver:1>3 '' @ ''<EoH>'' @ ''<call:2>AB<eor>'') = parse_data ''<call:2>AB<eor>''"
    by blast
  from inst h2 have c2: "parse_adif ''<call:2>AB<eor>'' = parse_data ''<call:2>AB<eor>''"
    by blast
  from inst h3 have c3: "parse_data (''<call:2>AB'' @ ''<eOR>'' @ ''<call:2>CD'')
         = then_records (parse_chunks [''<call:2>AB''] []) (parse_data ''<call:2>CD'')"
    by blast
  from inst h4 have c4: "parse_data ''<call:2>AB'' = parse_chunks [''<call:2>AB''] []"
    by blast
  from inst h5 have c5: "parse_chunks ([''<call:2>AB''] @ ''  '' # [''no tag'']) []
      = parse_chunks ([''<call:2>AB''] @ [''no tag'']) []"
    by blast
  from h1 h2 h3 h4 h5 c1 c2 c3 c4 c5 show ?thesis by blast
qed

subsection \<open>A length of more than 4300 digits\<close>

lemma occurs_needs_bracket: "CHR ''<'' \<notin> set s \<Longrightarrow> \<not> occurs (CHR ''<'' # ps) s"
  by (induction s) (auto simp: ci_char_def)

lemma strip_ends: "\<not> isspace x \<Longrightarrow> \<not> isspace y \<Longrightarrow> strip (x # mid @ [y]) = x # mid @ [y]"
  by (simp add: strip_def)

lemma is_dec_not_bracket: "list_all is_dec ds \<Longrightarrow> CHR ''<'' \<notin> set ds"
  by (auto simp: list_all_iff is_dec_def)

lemma parse_adif_long_length:
  assumes "ds \<noteq> []" and "list_all is_dec ds" and "length ds > 4300"
  shows "parse_adif (''<CALL:'' @ ds @ ''>K1ABC'') = Inl ValueError"
proof -
  let ?content = "''<CALL:'' @ ds @ ''>K1ABC''"
  have nb: "CHR ''<'' \<notin> set (''CALL:'' @ ds @ ''>K1ABC'')"
    using is_dec_not_bracket [OF assms(2)] by simp
  have no_eoh: "\<not> occurs ''<eoh>'' ?content" and no_eor: "\<not> occurs ''<eor>'' ?content"
    using occurs_needs_bracket [OF nb] by (simp_all add: ci_char_def)
  have "re_search ''<eoh>'' ?content = None"
    by (rule re_search_none [OF no_eoh])
  moreover have "re_split ''<eor>'' [] ?content = [?content]"
    using re_split_none [OF no_eor, of "[]"] by (simp only: rev.simps append_Nil)
  ultimately have split: "parse_adif ?content = parse_chunks [?content] []"
    by (simp only: parse_adif_def data_section_def parse_data_def option.case)
  have whole: "strip ?content = ?content"
    using strip_ends [of "CHR ''<''" "CHR ''C''" "''CALL:'' @ ds @ ''>K1AB''"]
    by (simp add: isspace_def)
  have "match_field (''<'' @ ''CALL'' @ '':'' @ ds @ ''>'' @ ''K1ABC'' @ [])
      = Some (''CALL'', ds, ''K1ABC'', [])"
    by (rule match_field_tag(1) [where typecode = "[]"])
       (use assms in \<open>simp_all add: is_word_def\<close>)
  then have "finditer ?content = [(''CALL'', ds, ''K1ABC'')]"
    by simp
  then have "parse_record ?content = Inl ValueError"
    using store_field_raises [OF assms(3)] by (simp add: parse_record_def)
  then have "parse_chunks [?content] [] = Inl ValueError"
    unfolding parse_chunks.simps whole Let_def by simp
  with split show ?thesis by simp
qed

text \<open>
  Claim C6 says that for every matched tag \<open>parse_adif\<close> stores the first LENGTH
  characters of the value under the uppercased name. For a tag whose length is written
  with more than 4300 digits (here 4300 zeros and a 5), the pattern matches and
  \<open>int\<close> raises ValueError on the matched digits; \<open>parse_adif\<close> stores nothing and returns
  no records.
\<close>

theorem parse_adif_long_length_raises:
  "parse_adif (''<CALL:'' @ (replicate 4300 (CHR ''0'') @ ''5'') @ ''>K1ABC'') = Inl ValueError"
  by (rule parse_adif_long_length) (simp_all add: is_dec_def list_all_iff)

section \<open>The reduction\<close>

text \<open>
  As long as \<open>best_latlon\<close> returns for every record, the loop of \<open>build_map\<close> appends
  the records that resolve, in their order, and counts the others; once it raises for a
  record, the loop is left with the exception.
\<close>

lemma build_map_loop_no_raise:
  assumes "\<forall>r \<in> set records. best_latlon flt r \<noteq> Inl ValueError"
  shows "\<exists>pts. build_map_loop flt records points skipped
           = Inr (points @ pts, skipped + length (filter (\<lambda>r. best_latlon flt r = Inr None) records))
         \<and> map (\<lambda>p. snd (snd p)) pts = filter (\<lambda>r. best_latlon flt r \<noteq> Inr None) records
         \<and> (\<forall>p \<in> set pts. \<exists>src. best_latlon flt (snd (snd p)) = Inr (Some (fst p, fst (snd p), src)))"
  using assms
proof (induction records arbitrary: points skipped)
  case Nil
  show ?case by simp
next
  case (Cons r records)
  from Cons.prems have tl: "\<forall>r \<in> set records. best_latlon flt r \<noteq> Inl ValueError" by simp
  from Cons.prems have "best_latlon flt r \<noteq> Inl ValueError" by simp
  have "best_latlon flt r = Inr None
        \<or> (\<exists>lat lon src. best_latlon flt r = Inr (Some (lat, lon, src)))"
  proof (cases "best_latlon flt r")
    case (Inl e)
    with \<open>best_latlon flt r \<noteq> Inl ValueError\<close> show ?thesis by (cases e) simp
  next
    case (Inr res)
    then show ?thesis by (cases res) auto
  qed
  then consider (absent) "best_latlon flt r = Inr None"
    | (present) lat lon src where "best_latlon flt r = Inr (Some (lat, lon, src))"
    by blast
  then show ?case
  proof cases
    case absent
    with Cons.IH [OF tl, of points "skipped + 1"] show ?thesis by auto
  next
    case present
    from Cons.IH [OF tl, of "points @ [(lat, lon, r)]" skipped]
    obtain pts where
      run: "build_map_loop flt records (points @ [(lat, lon, r)]) skipped
          = Inr ((points @ [(lat, lon, r)]) @ pts,
                 skipped + length (filter (\<lambda>r. best_latlon flt r = Inr None) records))"
      and ord: "map (\<lambda>p. snd (snd p)) pts = filter (\<lambda>r. best_latlon flt r \<noteq> Inr None) records"
      and src: "\<forall>p \<in> set pts. \<exists>src. best_latlon flt (snd (snd p)) = Inr (Some (fst p, fst (snd p), src))"
      by blast
    show ?thesis
      by (rule exI [of _ "(lat, lon, r) # pts"]) (use present run ord src in auto)
  qed
qed

lemma build_map_points_counts:
  assumes "\<forall>r \<in> set records. best_latlon flt r \<noteq> Inl ValueError"
  shows "\<exists>pts skipped. build_map_points flt records = Inr (pts, skipped)
         \<and> length pts + skipped = length records
         \<and> map (\<lambda>p. snd (snd p)) pts = filter (\<lambda>r. best_latlon flt r \<noteq> Inr None) records
         \<and> skipped = length (filter (\<lambda>r. best_latlon flt r = Inr None) records)"
proof -
  from build_map_loop_no_raise [OF assms, of "[]" 0] obtain pts where
    run: "build_map_points flt records
          = Inr (pts, length (filter (\<lambda>r. best_latlon flt r = Inr None) records))"
    and ord: "map (\<lambda>p. snd (snd p)) pts = filter (\<lambda>r. best_latlon flt r \<noteq> Inr None) records"
    by (auto simp: build_map_points_def)
  from ord have "length pts = length (filter (\<lambda>r. best_latlon flt r \<noteq> Inr None) records)"
    by (metis length_map)
  then have "length pts + length (filter (\<lambda>r. best_latlon flt r = Inr None) records) = length records"
    using sum_length_filter_compl [of "\<lambda>r. best_latlon flt r = Inr None" records] by simp
  with run ord show ?thesis by blast
qed

lemma build_map_loop_raise:
  "\<exists>r \<in> set records. best_latlon flt r = Inl ValueError \<Longrightarrow>
     build_map_loop flt records points skipped = Inl ValueError"
proof (induction records arbitrary: points skipped)
  case Nil
  then show ?case by simp
next
  case (Cons r records)
  show ?case
  proof (cases "best_latlon flt r")
    case (Inl e)
    then show ?thesis by (cases e) simp
  next
    case (Inr res)
    with Cons.prems have "\<exists>r \<in> set records. best_latlon flt r = Inl ValueError" by auto
    from Cons.IH [OF this] Inr show ?thesis by (auto split: option.splits)
  qed
qed

lemma end_to_end:
  "build_map_points float_dec
     [[(''CALL'', ''TEST1''), (''GRIDSQUARE'', ''FN20'')], [(''CALL'', ''TEST3'')],
      [(''CALL'', ''TEST2''), (''LAT'', ''40.00N''), (''LON'', ''074.0W'')]]
   = Inr ([(Finite (81 / 2), Finite (- 75), [(''CALL'', ''TEST1''), (''GRIDSQUARE'', ''FN20'')]),
           (Finite 40, Finite (- 74), [(''CALL'', ''TEST2''), (''LAT'', ''40.00N''), (''LON'', ''074.0W'')])], 1)"
  by (simp add: build_map_points_def resolve_defs maidenhead_defs str_defs)

text \<open>
  Claim C8 says that for every list of records the loop appends or counts each record,
  so that the number of points and the number of skipped records add up to the number
  of records. For a record whose grid square has the superscript two (U+00B2) where a
  digit belongs, \<open>maidenhead_to_latlon\<close> raises ValueError; nothing catches it, and the
  loop gives neither a list of points nor a count.
\<close>

theorem build_map_points_raises:
  "build_map_points float_dec
     [[(''CALL'', ''K1ABC''), (''GRIDSQUARE'', [CHR ''F'', CHR ''N'', CHR 0xB2, CHR ''0''])]]
   = Inl ValueError"
  by (simp add: build_map_points_def resolve_defs maidenhead_defs str_defs)

end
